theory Spec2Isabelle
  imports Complex_Main "HOL-Library.Multiset"
begin

section \<open>Conventions of the embedding\<close>

text \<open>
  The sources are the TypeScript/React front end of the route optimizer
  (\<^verbatim>\<open>frontend/src\<close>).  A JavaScript \<^verbatim>\<open>number\<close> is modelled as a \<^typ>\<open>real\<close>
  (exact arithmetic; NaN, the infinities and rounding of IEEE doubles are outside the
  model), an array index as a \<^typ>\<open>nat\<close>, a string as a \<^typ>\<open>string\<close>, an optional
  field or a nullable value as an \<^typ>\<open>'a option\<close>.  A React state hook is a field of a
  state record; an event handler is a function from the state to the next state.
\<close>

subsection \<open>Rendering numbers as text\<close>

definition digit_char :: "nat \<Rightarrow> char" where
  "digit_char d = ''0123456789'' ! d"

text \<open>\<^verbatim>\<open>String(n)\<close> for a non-negative integer: its decimal digits, most significant first.\<close>

fun digits_onto :: "nat \<Rightarrow> string \<Rightarrow> string" where
  "digits_onto n acc =
     (if n < 10 then digit_char n # acc
      else digits_onto (n div 10) (digit_char (n mod 10) # acc))"

declare digits_onto.simps [simp del]

definition decimal_of_nat :: "nat \<Rightarrow> string" where
  "decimal_of_nat n = digits_onto n []"

text \<open>\<^verbatim>\<open>String(i)\<close> for an integer.\<close>

definition decimal_of_int :: "int \<Rightarrow> string" where
  "decimal_of_int i =
     (if 0 \<le> i then decimal_of_nat (nat i) else CHR ''-'' # decimal_of_nat (nat (- i)))"

text \<open>
  \<^verbatim>\<open>x.toFixed(1)\<close>: the sign, then the integer \<open>n\<close> for which \<open>n / 10\<close> is closest to
  \<open>\<bar>x\<bar>\<close> (the larger one on a tie), written with one digit after the point.
  (ECMAScript switches to exponent notation from \<open>10\<^sup>2\<^sup>1\<close> on; that range is not modelled.)
\<close>

definition toFixed1 :: "real \<Rightarrow> string" where
  "toFixed1 x =
     (let n = nat \<lfloor>\<bar>x\<bar> * 10 + 1 / 2\<rfloor> in
      (if x < 0 then ''-'' else '''') @ decimal_of_nat (n div 10) @ ''.'' @ decimal_of_nat (n mod 10))"

section \<open>Data model (\<^verbatim>\<open>types/index.ts\<close>)\<close>

record Coordinates =
  lat :: real
  lng :: real

record VehicleInfo =
  vehicle_type :: string
  fuel_efficiency_mpg :: real
  fuel_price_per_gallon :: "real option"

record TimeWindow =
  start_time :: string
  end'time :: string

record DeliveryStop =
  address :: string
  time_window :: "TimeWindow option"
  priority :: "real option"

record DeliveryRequest =
  stops :: "DeliveryStop list"
  vehicle :: VehicleInfo
  start_location :: string
  avoid_peak_hours :: "bool option"
  prioritize_safety :: "bool option"

record RouteSegment =
  from_address :: string
  to_address :: string
  from_coords :: Coordinates
  to_coords :: Coordinates
  distance_km :: real
  estimated_time_min :: real
  risk_score :: real

record OptimizedRoute =
  route_id :: string
  ordered_stops :: "string list"
  coordinates :: "Coordinates list"
  segments :: "RouteSegment list"
  total_distance_km :: real
  total_time_min :: real
  total_risk_score :: real
  route_quality_score :: real
  route_geometry :: "real list list option"

record CostBreakdown =
  estimated_fuel_liters :: real
  base_fuel_cost :: real
  traffic_penalty :: real
  idle_cost :: real
  stop_penalty :: real

record CostPrediction =
  predicted_cost_usd :: real
  confidence_lower :: real
  confidence_upper :: real
  cost_breakdown :: CostBreakdown

text \<open>A JSON value, for the fields the sources type as \<^verbatim>\<open>any\<close> (numbers: integers only).\<close>

datatype json =
  JNull | JBool bool | JNum int | JStr string | JArr "json list" | JObj "(string \<times> json) list"

datatype RiskLevel = RiskNone | RiskLow | RiskMedium | RiskHigh | RiskCritical

record RiskAnalysis =
  ra_total_risk_score :: real
  risk_zones_encountered :: "string list"
  risk_segments :: "json list"
  ra_risk_level :: RiskLevel
  zones_by_type :: "(string \<times> real) list"

record RouteExplanation =
  summary :: string
  reasoning :: string
  trade_offs_text :: string
  recommendations :: string

record AlternativeRoute =
  route :: OptimizedRoute
  cost :: CostPrediction
  recommendation :: string
  trade_offs :: string

record RouteResponse =
  primary_route :: OptimizedRoute
  cost_prediction :: CostPrediction
  risk_analysis :: RiskAnalysis
  alternatives :: "AlternativeRoute list"
  explanation :: "RouteExplanation option"
  processing_time_ms :: real

record RiskZone =
  name :: string
  center :: Coordinates
  radius_km :: real
  risk_level :: real
  zone_type :: string

text \<open>
  Field names are the sources' own, except where two interfaces share one: the
  \<^verbatim>\<open>total_risk_score\<close> and \<^verbatim>\<open>risk_level\<close> of \<^verbatim>\<open>RiskAnalysis\<close> carry the prefix \<open>ra_\<close>,
  and the \<^verbatim>\<open>trade_offs\<close> of \<^verbatim>\<open>RouteExplanation\<close> is \<open>trade_offs_text\<close>.  The
  \<^verbatim>\<open>zone_type\<close> of a \<^verbatim>\<open>RiskZone\<close> is kept as the string the server sends.
\<close>

section \<open>Risk classification in the user interface\<close>

text \<open>\<^verbatim>\<open>pages/RiskZones.tsx\<close>, \<^verbatim>\<open>getRiskLabel\<close>.\<close>

definition getRiskLabel :: "real \<Rightarrow> string" where
  "getRiskLabel level =
     (if level \<le> 3 then ''Low''
      else if level \<le> 5 then ''Medium''
      else if level \<le> 7 then ''High''
      else ''Critical'')"

text \<open>\<^verbatim>\<open>components/RouteMap.tsx\<close>, \<^verbatim>\<open>getRiskColor\<close>.\<close>

definition getRiskColor_RouteMap :: "real \<Rightarrow> string" where
  "getRiskColor_RouteMap riskLevel =
     (if riskLevel \<le> 3 then ''#10b981''
      else if riskLevel \<le> 5 then ''#f59e0b''
      else if riskLevel \<le> 7 then ''#fb923c''
      else ''#ef4444'')"

text \<open>
  The component \<^verbatim>\<open>RouteComparison\<close> (in the source tree it follows \<^verbatim>\<open>CostDashboard\<close> in
  \<^verbatim>\<open>components/CostDashboard.tsx\<close>, from line 218), \<^verbatim>\<open>getRiskColor\<close>.
\<close>

definition getRiskColor_RouteComparison :: "real \<Rightarrow> string" where
  "getRiskColor_RouteComparison risk =
     (if risk < 2 then ''text-success''
      else if risk < 5 then ''text-warning''
      else if risk < 7 then ''text-orange-500''
      else ''text-danger'')"

text \<open>
  The bucket each returned label or colour stands for (green/success is low,
  amber/warning is medium, orange is high, red/danger is critical), and the documented
  threshold table on the integer scale \<open>0..10\<close>.
\<close>

datatype bucket = Low | Medium | High | Critical

definition bucket_of_label :: "string \<Rightarrow> bucket option" where
  "bucket_of_label s =
     (if s = ''Low'' \<or> s = ''#10b981'' \<or> s = ''text-success'' then Some Low
      else if s = ''Medium'' \<or> s = ''#f59e0b'' \<or> s = ''text-warning'' then Some Medium
      else if s = ''High'' \<or> s = ''#fb923c'' \<or> s = ''text-orange-500'' then Some High
      else if s = ''Critical'' \<or> s = ''#ef4444'' \<or> s = ''text-danger'' then Some Critical
      else None)"

definition threshold_table :: "int \<Rightarrow> bucket" where
  "threshold_table v =
     (if v \<le> 3 then Low else if v \<le> 5 then Medium else if v \<le> 7 then High else Critical)"

section \<open>Route comparison (the component \<^verbatim>\<open>RouteComparison\<close>)\<close>

text \<open>\<^verbatim>\<open>getAlternativeName\<close>: \<^verbatim>\<open>names[index] || `Alternative ${index + 1}`\<close>\<close>

definition getAlternativeName :: "nat \<Rightarrow> string" where
  "getAlternativeName index =
     (let names = [''Shortest Distance'', ''Safest Route'', ''Off-Peak Schedule''] in
      if index < length names \<and> names ! index \<noteq> '''' then names ! index
      else ''Alternative '' @ decimal_of_nat (index + 1))"

text \<open>
  The heading of the card of the alternative at position \<open>index\<close>, and the headings of all
  cards in the order \<^verbatim>\<open>alternatives.map((alt, index) => ...)\<close> renders them.
\<close>

definition alternativeHeading :: "AlternativeRoute \<Rightarrow> nat \<Rightarrow> string" where
  "alternativeHeading alt index =
     (if length (ordered_stops (route alt)) > 0 then getAlternativeName index
      else recommendation alt)"

definition alternativeHeadings :: "AlternativeRoute list \<Rightarrow> string list" where
  "alternativeHeadings alts = map (\<lambda>(index, alt). alternativeHeading alt index) (enumerate 0 alts)"

text \<open>
  \<^verbatim>\<open>getDifferenceText\<close>.  The constant \<^verbatim>\<open>color\<close> of the source is computed and never
  used; it is left out.
\<close>

definition getDifferenceText :: "real \<Rightarrow> real \<Rightarrow> string \<Rightarrow> bool \<Rightarrow> string" where
  "getDifferenceText primary alternative unit lowerIsBetter =
     (let diff = alternative - primary;
          absDiff = \<bar>diff\<bar>
      in if \<bar>diff\<bar> < 1 / 100 then ''Same''
         else
           let isWorse = (if lowerIsBetter then diff > 0 else diff > 0);
               prefix = (if isWorse then ''+'' else '''')
           in prefix @ toFixed1 absDiff @ unit)"

section \<open>The delivery form (the component \<^verbatim>\<open>DeliveryForm\<close>, two variants)\<close>

text \<open>
  The source tree holds two variants of the component, both in
  \<^verbatim>\<open>components/Logo.tsx\<close> after the logo: the first from line 65, the second from line 262.
\<close>

text \<open>
  The six \<^verbatim>\<open>useState\<close> hooks of the form.  The hook \<^verbatim>\<open>stops\<close> is the field
  \<open>form_stops\<close> (the name \<open>stops\<close> is the field of \<^verbatim>\<open>DeliveryRequest\<close>).
\<close>

record FormState =
  startLocation :: string
  form_stops :: "DeliveryStop list"
  vehicleType :: string
  fuelEfficiency :: real
  avoidPeakHours :: bool
  prioritizeSafety :: bool

definition initialForm :: FormState where
  "initialForm =
     \<lparr>startLocation = ''Saddar, Hyderabad, Sindh, Pakistan'',
      form_stops =
        [\<lparr>address = ''Latifabad, Hyderabad, Sindh, Pakistan'', time_window = None,
          priority = Some 1\<rparr>],
      vehicleType = ''van'', fuelEfficiency = 22, avoidPeakHours = True,
      prioritizeSafety = False\<rparr>"

text \<open>\<^verbatim>\<open>stops.filter((_, i) => i !== index)\<close>\<close>

definition remove_at :: "nat \<Rightarrow> 'a list \<Rightarrow> 'a list" where
  "remove_at index xs = map snd (filter (\<lambda>(i, _). i \<noteq> index) (enumerate 0 xs))"

subsection \<open>First variant\<close>

definition addStop :: "FormState \<Rightarrow> FormState" where
  "addStop s =
     s\<lparr>form_stops := form_stops s @ [\<lparr>address = '''', time_window = None, priority = Some 1\<rparr>]\<rparr>"

definition removeStop :: "nat \<Rightarrow> FormState \<Rightarrow> FormState" where
  "removeStop index s =
     (if length (form_stops s) > 1 then s\<lparr>form_stops := remove_at index (form_stops s)\<rparr>
      else s)"

text \<open>
  \<^verbatim>\<open>newStops[index].address = address\<close> throws a TypeError when \<^verbatim>\<open>index\<close> is out of
  range, before \<^verbatim>\<open>setStops\<close> is reached: the state stays as it was.
\<close>

definition updateStop :: "nat \<Rightarrow> string \<Rightarrow> FormState \<Rightarrow> FormState" where
  "updateStop index a s =
     (if index < length (form_stops s)
      then s\<lparr>form_stops := (form_stops s)[index := (form_stops s ! index)\<lparr>address := a\<rparr>]\<rparr>
      else s)"

definition handleSubmit :: "FormState \<Rightarrow> DeliveryRequest" where
  "handleSubmit s =
     (let vehicle =
            \<lparr>vehicle_type = vehicleType s, fuel_efficiency_mpg = fuelEfficiency s,
             fuel_price_per_gallon = None\<rparr>;
          request =
            \<lparr>stops = form_stops s, vehicle = vehicle, start_location = startLocation s,
             avoid_peak_hours = Some (avoidPeakHours s),
             prioritize_safety = Some (prioritizeSafety s)\<rparr>
      in request)"

text \<open>The events of the form: the three operations on stops and the five plain setters.\<close>

datatype form_event =
  AddStop
  | RemoveStop nat
  | UpdateStop nat string
  | SetStartLocation string
  | SetVehicleType string
  | SetFuelEfficiency real
  | SetAvoidPeakHours bool
  | SetPrioritizeSafety bool

fun form_step :: "FormState \<Rightarrow> form_event \<Rightarrow> FormState" where
  "form_step s AddStop = addStop s"
| "form_step s (RemoveStop i) = removeStop i s"
| "form_step s (UpdateStop i a) = updateStop i a s"
| "form_step s (SetStartLocation a) = s\<lparr>startLocation := a\<rparr>"
| "form_step s (SetVehicleType t) = s\<lparr>vehicleType := t\<rparr>"
| "form_step s (SetFuelEfficiency e) = s\<lparr>fuelEfficiency := e\<rparr>"
| "form_step s (SetAvoidPeakHours b) = s\<lparr>avoidPeakHours := b\<rparr>"
| "form_step s (SetPrioritizeSafety b) = s\<lparr>prioritizeSafety := b\<rparr>"

definition form_run :: "form_event list \<Rightarrow> FormState" where
  "form_run events = foldl form_step initialForm events"

subsection \<open>Second variant\<close>

text \<open>
  The second variant has the same hooks and handlers, and an effect that sets the fuel
  efficiency from a table whenever the vehicle type changes (and once on mount).
\<close>

definition mpg_defaults :: "(string \<times> real) list" where
  "mpg_defaults =
     [(''car'', 25), (''van'', 18), (''truck'', 8), (''motorcycle'', 50), (''scooter'', 45),
      (''mini-truck'', 15)]"

definition vehicleTypeEffect :: "FormState \<Rightarrow> FormState" where
  "vehicleTypeEffect s =
     (case map_of mpg_defaults (vehicleType s) of
        Some d \<Rightarrow> s\<lparr>fuelEfficiency := d\<rparr>
      | None \<Rightarrow> s)"

definition initialForm2 :: FormState where
  "initialForm2 = vehicleTypeEffect initialForm"

definition addStop2 :: "FormState \<Rightarrow> FormState" where
  "addStop2 s =
     s\<lparr>form_stops := form_stops s @ [\<lparr>address = '''', time_window = None, priority = Some 1\<rparr>]\<rparr>"

definition removeStop2 :: "nat \<Rightarrow> FormState \<Rightarrow> FormState" where
  "removeStop2 index s =
     (if length (form_stops s) > 1 then s\<lparr>form_stops := remove_at index (form_stops s)\<rparr>
      else s)"

definition updateStop2 :: "nat \<Rightarrow> string \<Rightarrow> FormState \<Rightarrow> FormState" where
  "updateStop2 index a s =
     (if index < length (form_stops s)
      then s\<lparr>form_stops := (form_stops s)[index := (form_stops s ! index)\<lparr>address := a\<rparr>]\<rparr>
      else s)"

definition handleSubmit2 :: "FormState \<Rightarrow> DeliveryRequest" where
  "handleSubmit2 s =
     (let vehicle =
            \<lparr>vehicle_type = vehicleType s, fuel_efficiency_mpg = fuelEfficiency s,
             fuel_price_per_gallon = None\<rparr>;
          request =
            \<lparr>stops = form_stops s, vehicle = vehicle, start_location = startLocation s,
             avoid_peak_hours = Some (avoidPeakHours s),
             prioritize_safety = Some (prioritizeSafety s)\<rparr>
      in request)"

fun form_step2 :: "FormState \<Rightarrow> form_event \<Rightarrow> FormState" where
  "form_step2 s AddStop = addStop2 s"
| "form_step2 s (RemoveStop i) = removeStop2 i s"
| "form_step2 s (UpdateStop i a) = updateStop2 i a s"
| "form_step2 s (SetStartLocation a) = s\<lparr>startLocation := a\<rparr>"
| "form_step2 s (SetVehicleType t) =
     (if t = vehicleType s then s else vehicleTypeEffect (s\<lparr>vehicleType := t\<rparr>))"
| "form_step2 s (SetFuelEfficiency e) = s\<lparr>fuelEfficiency := e\<rparr>"
| "form_step2 s (SetAvoidPeakHours b) = s\<lparr>avoidPeakHours := b\<rparr>"
| "form_step2 s (SetPrioritizeSafety b) = s\<lparr>prioritizeSafety := b\<rparr>"

definition form_run2 :: "form_event list \<Rightarrow> FormState" where
  "form_run2 events = foldl form_step2 initialForm2 events"

section \<open>The risk zones page (\<^verbatim>\<open>pages/RiskZones.tsx\<close>)\<close>

text \<open>
  \<^verbatim>\<open>String.prototype.toLowerCase\<close> on the letters A to Z (strings are byte sequences
  here; the case mapping of characters outside ASCII is not modelled), and
  \<^verbatim>\<open>String.prototype.includes\<close>: the argument occurs as a contiguous substring.
\<close>

definition lower_char :: "char \<Rightarrow> char" where
  "lower_char c =
     (let n = (of_char c :: nat) in if 65 \<le> n \<and> n \<le> 90 then char_of (n + 32) else c)"

definition toLowerCase :: "string \<Rightarrow> string" where
  "toLowerCase s = map lower_char s"

fun starts_with :: "string \<Rightarrow> string \<Rightarrow> bool" where
  "starts_with s [] = True"
| "starts_with [] (c # cs) = False"
| "starts_with (d # ds) (c # cs) = (d = c \<and> starts_with ds cs)"

fun str_includes :: "string \<Rightarrow> string \<Rightarrow> bool" where
  "str_includes [] sub = (sub = [])"
| "str_includes (c # cs) sub = (starts_with (c # cs) sub \<or> str_includes cs sub)"

text \<open>
  \<^verbatim>\<open>Array.prototype.slice(start, end)\<close> with integer arguments: a negative argument
  counts from the end, both are clamped to the array.
\<close>

definition js_slice :: "'a list \<Rightarrow> int \<Rightarrow> int \<Rightarrow> 'a list" where
  "js_slice xs start end' =
     (let len = int (length xs);
          k = (if start < 0 then max (len + start) 0 else min start len);
          final = (if end' < 0 then max (len + end') 0 else min end' len)
      in take (nat (final - k)) (drop (nat k) xs))"

definition ZONES_PER_PAGE :: nat where
  "ZONES_PER_PAGE = 9"

text \<open>
  The predicate of \<^verbatim>\<open>riskZones.filter\<close>.  \<^verbatim>\<open>selectedType\<close> is a string or null and
  \<^verbatim>\<open>searchQuery\<close> a string; null and the empty string are falsy.
\<close>

definition matchesType :: "string option \<Rightarrow> RiskZone \<Rightarrow> bool" where
  "matchesType selectedType z =
     (case selectedType of
        None \<Rightarrow> True
      | Some t \<Rightarrow> if t \<noteq> '''' then zone_type z = t else True)"

definition matchesSearch :: "string \<Rightarrow> RiskZone \<Rightarrow> bool" where
  "matchesSearch searchQuery z =
     (if searchQuery \<noteq> ''''
      then str_includes (toLowerCase (name z)) (toLowerCase searchQuery)
           \<or> str_includes (toLowerCase (zone_type z)) (toLowerCase searchQuery)
      else True)"

definition filteredZones :: "RiskZone list \<Rightarrow> string option \<Rightarrow> string \<Rightarrow> RiskZone list" where
  "filteredZones riskZones selectedType searchQuery =
     filter (\<lambda>z. matchesType selectedType z \<and> matchesSearch searchQuery z) riskZones"

text \<open>\<^verbatim>\<open>Math.ceil(filteredZones.length / ZONES_PER_PAGE)\<close>\<close>

definition totalPages :: "RiskZone list \<Rightarrow> string option \<Rightarrow> string \<Rightarrow> nat" where
  "totalPages riskZones selectedType searchQuery =
     nat \<lceil>real (length (filteredZones riskZones selectedType searchQuery)) / real ZONES_PER_PAGE\<rceil>"

definition paginatedZones ::
  "RiskZone list \<Rightarrow> string option \<Rightarrow> string \<Rightarrow> int \<Rightarrow> RiskZone list" where
  "paginatedZones riskZones selectedType searchQuery currentPage =
     js_slice (filteredZones riskZones selectedType searchQuery)
       ((currentPage - 1) * int ZONES_PER_PAGE) (currentPage * int ZONES_PER_PAGE)"

text \<open>The pages \<open>1, \<dots>, totalPages\<close> one after the other.\<close>

definition allPages :: "RiskZone list \<Rightarrow> string option \<Rightarrow> string \<Rightarrow> RiskZone list" where
  "allPages riskZones selectedType searchQuery =
     concat (map (\<lambda>p. paginatedZones riskZones selectedType searchQuery (int p))
       [1 ..< Suc (totalPages riskZones selectedType searchQuery)])"

section \<open>The optimizer page (\<^verbatim>\<open>pages/Optimizer.tsx\<close>)\<close>

subsection \<open>Text of JavaScript values\<close>

text \<open>\<^verbatim>\<open>Array.prototype.join(separator)\<close> on an array of strings.\<close>

fun join_with :: "string \<Rightarrow> string list \<Rightarrow> string" where
  "join_with sep [] = []"
| "join_with sep [x] = x"
| "join_with sep (x # y # ys) = x @ sep @ join_with sep (y # ys)"

text \<open>
  \<^verbatim>\<open>JSON.stringify\<close> without indentation.  A string is quoted, with the quotation mark,
  the backslash and the control characters below U+0020 escaped.
\<close>

definition hex_char :: "nat \<Rightarrow> char" where
  "hex_char d = ''0123456789abcdef'' ! d"

definition json_escape :: "char \<Rightarrow> string" where
  "json_escape c =
     (let n = (of_char c :: nat) in
      if n = 0x22 then [CHR 0x5C, CHR 0x22]
      else if n = 0x5C then [CHR 0x5C, CHR 0x5C]
      else if n = 0x08 then [CHR 0x5C, CHR ''b'']
      else if n = 0x0C then [CHR 0x5C, CHR ''f'']
      else if n = 0x0A then [CHR 0x5C, CHR ''n'']
      else if n = 0x0D then [CHR 0x5C, CHR ''r'']
      else if n = 0x09 then [CHR 0x5C, CHR ''t'']
      else if n < 0x20 then [CHR 0x5C, CHR ''u'', CHR ''0'', CHR ''0'', hex_char (n div 16), hex_char (n mod 16)]
      else [c])"

definition json_quote :: "string \<Rightarrow> string" where
  "json_quote s = CHR 0x22 # concat (map json_escape s) @ [CHR 0x22]"

fun stringify :: "json \<Rightarrow> string" where
  "stringify JNull = ''null''"
| "stringify (JBool b) = (if b then ''true'' else ''false'')"
| "stringify (JNum n) = decimal_of_int n"
| "stringify (JStr s) = json_quote s"
| "stringify (JArr xs) = ''['' @ join_with '','' (map stringify xs) @ '']''"
| "stringify (JObj kvs) =
     ''{'' @ join_with '','' (map (\<lambda>kv. json_quote (fst kv) @ '':'' @ stringify (snd kv)) kvs) @ ''}''"

subsection \<open>The rejection of the optimize call\<close>

text \<open>
  The \<^verbatim>\<open>catch\<close> block reads \<^verbatim>\<open>err.response?.data?.detail\<close> and \<^verbatim>\<open>err.message\<close> of the
  rejection, an Error object of axios.  The detail is whatever JSON the server sent
  (typed \<^verbatim>\<open>any\<close>), \<open>None\<close> when \<^verbatim>\<open>response\<close>, \<^verbatim>\<open>data\<close> or \<^verbatim>\<open>detail\<close> is missing; the
  message, when present, is a string.  An object is the list of its own properties, with
  distinct keys.  A computation that can throw a TypeError returns an option, \<open>None\<close>
  for the throw.
\<close>

record ApiError =
  response_detail :: "json option"
  message :: "string option"

text \<open>JavaScript truthiness: arrays and objects are truthy, also when empty.\<close>

fun truthy :: "json \<Rightarrow> bool" where
  "truthy JNull = False"
| "truthy (JBool b) = b"
| "truthy (JNum n) = (n \<noteq> 0)"
| "truthy (JStr s) = (s \<noteq> [])"
| "truthy (JArr xs) = True"
| "truthy (JObj kvs) = True"

text \<open>
  The conversion to a string that a template literal and \<^verbatim>\<open>Array.prototype.join\<close> apply
  (integers below \<open>10\<^sup>2\<^sup>1\<close> in size).  An array is joined with commas, null elements as
  the empty string.  A parsed object gives \<^verbatim>\<open>[object Object]\<close>, unless it has an own
  property \<^verbatim>\<open>toString\<close>, which is not callable and makes the conversion throw.
\<close>

fun js_to_string :: "json \<Rightarrow> string option" where
  "js_to_string JNull = Some ''null''"
| "js_to_string (JBool b) = Some (if b then ''true'' else ''false'')"
| "js_to_string (JNum n) = Some (decimal_of_int n)"
| "js_to_string (JStr s) = Some s"
| "js_to_string (JArr xs) =
     map_option (join_with '','')
       (those (map (\<lambda>x. if x = JNull then Some [] else js_to_string x) xs))"
| "js_to_string (JObj kvs) =
     (if ''toString'' \<in> set (map fst kvs) then None else Some ''[object Object]'')"

text \<open>\<^verbatim>\<open>Array.prototype.join(separator)\<close> on an array of JSON values.\<close>

definition js_join :: "string \<Rightarrow> json list \<Rightarrow> string option" where
  "js_join sep xs =
     map_option (join_with sep)
       (those (map (\<lambda>x. if x = JNull then Some [] else js_to_string x) xs))"

text \<open>The separator \<^verbatim>\<open>' -> '\<close> with the arrow U+2192, as its three UTF-8 bytes.\<close>

definition arrow_sep :: string where
  "arrow_sep = [CHR '' '', CHR 0xE2, CHR 0x86, CHR 0x92, CHR '' '']"

text \<open>
  One entry: \<^verbatim>\<open>`${e.loc?.join(' -> ') || 'Field'}: ${e.msg}`\<close>.  Reading \<^verbatim>\<open>e.loc\<close> of null
  throws; on any other value that is not an object both properties are undefined.  A
  \<^verbatim>\<open>loc\<close> that is missing or null gives \<^verbatim>\<open>Field\<close>, as an empty joined path does; a
  \<^verbatim>\<open>loc\<close> that is neither null nor an array has no callable \<^verbatim>\<open>join\<close>, and the call throws.
\<close>

definition errorEntry :: "json \<Rightarrow> string option" where
  "errorEntry e =
     (case e of
        JNull \<Rightarrow> None
      | JObj kvs \<Rightarrow>
          (let path =
                 (case map_of kvs ''loc'' of
                    None \<Rightarrow> Some []
                  | Some JNull \<Rightarrow> Some []
                  | Some (JArr xs) \<Rightarrow> js_join arrow_sep xs
                  | Some other \<Rightarrow> None);
               msg =
                 (case map_of kvs ''msg'' of
                    None \<Rightarrow> Some ''undefined''
                  | Some v \<Rightarrow> js_to_string v)
           in case path of
                None \<Rightarrow> None
              | Some p \<Rightarrow>
                  (case msg of
                     None \<Rightarrow> None
                   | Some m \<Rightarrow> Some ((if p \<noteq> [] then p else ''Field'') @ '': '' @ m)))
      | other \<Rightarrow> Some ''Field: undefined'')"

definition defaultErrorMessage :: string where
  "defaultErrorMessage = ''Failed to optimize route. Please check your inputs and try again.''"

text \<open>
  The value of \<^verbatim>\<open>errorMessage\<close> at the end of the \<^verbatim>\<open>catch\<close> block, \<open>None\<close> when the
  block throws before it gets there.
\<close>

definition extractErrorMessage :: "ApiError \<Rightarrow> string option" where
  "extractErrorMessage err =
     (let fromMessage =
            (case message err of
               Some m \<Rightarrow> if m \<noteq> [] then m else defaultErrorMessage
             | None \<Rightarrow> defaultErrorMessage)
      in case response_detail err of
           None \<Rightarrow> Some fromMessage
         | Some d \<Rightarrow>
             if truthy d then
               (case d of
                  JArr es \<Rightarrow> map_option (join_with ''; '') (those (map errorEntry es))
                | JStr s \<Rightarrow> Some s
                | other \<Rightarrow> Some (stringify d))
             else Some fromMessage)"

text \<open>
  The state of the page, and \<^verbatim>\<open>handleOptimize\<close> from the state before the call to the
  state after it, given how \<^verbatim>\<open>optimizeRoute\<close> settled: rejected with an error (\<open>Inl\<close>)
  or fulfilled with a response (\<open>Inr\<close>).  When the \<^verbatim>\<open>catch\<close> block throws, \<^verbatim>\<open>setError\<close>
  is not reached and the error state keeps the null set at the start; the \<^verbatim>\<open>finally\<close>
  block runs in every case.
\<close>

record OptimizerState =
  isLoading :: bool
  error :: "string option"
  result :: "RouteResponse option"
  riskZones :: "RiskZone list"

definition handleOptimize :: "OptimizerState \<Rightarrow> ApiError + RouteResponse \<Rightarrow> OptimizerState" where
  "handleOptimize st outcome =
     (let st1 = st\<lparr>isLoading := True, error := None, result := None\<rparr>;
          st2 = (case outcome of
                   Inr response \<Rightarrow> st1\<lparr>result := Some response\<rparr>
                 | Inl err \<Rightarrow>
                     (case extractErrorMessage err of
                        Some errorMessage \<Rightarrow> st1\<lparr>error := Some errorMessage\<rparr>
                      | None \<Rightarrow> st1))
      in st2\<lparr>isLoading := False\<rparr>)"

definition initialOptimizer :: OptimizerState where
  "initialOptimizer = \<lparr>isLoading = False, error = None, result = None, riskZones = []\<rparr>"

text \<open>
  A validation error as the server's framework sends it: an object whose \<^verbatim>\<open>loc\<close> is
  missing, null or an array of strings and integers, and whose \<^verbatim>\<open>msg\<close> is a string;
  its location path, its message, and the text that names the failing field.
\<close>

fun is_loc_item :: "json \<Rightarrow> bool" where
  "is_loc_item (JStr s) = True"
| "is_loc_item (JNum n) = True"
| "is_loc_item other = False"

fun loc_item_text :: "json \<Rightarrow> string" where
  "loc_item_text (JStr s) = s"
| "loc_item_text (JNum n) = decimal_of_int n"
| "loc_item_text other = []"

definition validation_error :: "json \<Rightarrow> bool" where
  "validation_error e =
     (case e of
        JObj kvs \<Rightarrow>
          (case map_of kvs ''loc'' of
             None \<Rightarrow> True
           | Some JNull \<Rightarrow> True
           | Some (JArr xs) \<Rightarrow> list_all is_loc_item xs
           | Some other \<Rightarrow> False)
          \<and> (case map_of kvs ''msg'' of Some (JStr m) \<Rightarrow> True | other \<Rightarrow> False)
      | other \<Rightarrow> False)"

definition loc_path :: "json \<Rightarrow> json list" where
  "loc_path e =
     (case e of
        JObj kvs \<Rightarrow> (case map_of kvs ''loc'' of Some (JArr xs) \<Rightarrow> xs | other \<Rightarrow> [])
      | other \<Rightarrow> [])"

definition msg_text :: "json \<Rightarrow> string" where
  "msg_text e =
     (case e of
        JObj kvs \<Rightarrow> (case map_of kvs ''msg'' of Some (JStr m) \<Rightarrow> m | other \<Rightarrow> [])
      | other \<Rightarrow> [])"

definition failing_field_text :: "json \<Rightarrow> string" where
  "failing_field_text e =
     (let p = join_with arrow_sep (map loc_item_text (loc_path e))
      in (if p \<noteq> [] then p else ''Field'') @ '': '' @ msg_text e)"

section \<open>The route engine behind the optimize call\<close>

text \<open>
  The optimize call is answered by the server; its code is not among the sources, which
  hold the front end only.  The definitions of this section follow the specification's
  description of the engine (graph builder, route solver, assembly of the route).  The
  cost predictor, the risk analyzer and the alternative generator are not modelled.
\<close>

text \<open>
  Modelled from the spec: the error taxonomy of the optimize operation (section 7);
  the degraded outcomes \<^verbatim>\<open>SolverTimeout\<close> and \<^verbatim>\<open>ModelUnavailable\<close> are not errors.
\<close>

datatype optimize_error =
  AddressResolutionError string
  | DegenerateGraphError
  | InvalidVehicleProfile

text \<open>
  Modelled from the spec: the collaborators and tuning constants the engine consumes
  (sections 4.2, 4.3 and 6), taken as parameters: the geocoder, the distance provider,
  the travel time of an edge, the traffic factor (given \<^verbatim>\<open>avoidPeakHours\<close>), the risk
  factor and the risk contribution from the risk zone index (given
  \<^verbatim>\<open>prioritizeSafety\<close>), the variance in risk used for tie-breaking, the floor weight of
  a zero-distance edge, the penalty for reaching a stop at a given time outside its
  window, the iteration budget of the local search, and the route identifier and
  quality score (from distance, time and risk), which the spec leaves open.
\<close>

record Collaborators =
  geocode :: "string \<Rightarrow> Coordinates option"
  distance_between :: "Coordinates \<Rightarrow> Coordinates \<Rightarrow> real"
  travel_time :: "Coordinates \<Rightarrow> Coordinates \<Rightarrow> real"
  traffic_factor :: "bool \<Rightarrow> Coordinates \<Rightarrow> Coordinates \<Rightarrow> real"
  risk_factor :: "bool \<Rightarrow> Coordinates \<Rightarrow> Coordinates \<Rightarrow> real"
  risk_contribution :: "Coordinates \<Rightarrow> Coordinates \<Rightarrow> real"
  risk_variance :: "Coordinates \<Rightarrow> Coordinates \<Rightarrow> real"
  floor_weight :: real
  window_penalty :: "DeliveryStop \<Rightarrow> real \<Rightarrow> real"
  search_budget :: nat
  new_route_id :: string
  quality_score :: "real \<Rightarrow> real \<Rightarrow> real \<Rightarrow> real"

text \<open>
  Modelled from the spec: the \<^verbatim>\<open>WeightedEdge\<close> of the data model (section 3), with the
  variance in risk that the solver's tie-break reads.
\<close>

record WeightedEdge =
  edge_from :: nat
  edge_to :: nat
  edge_distance :: real
  edge_time :: real
  edge_risk :: real
  edge_risk_variance :: real
  edge_weight :: real

text \<open>
  Modelled from the spec: the graph builder (section 4.2).  Node 0 is the depot, node
  \<open>i + 1\<close> the stop at position \<open>i\<close> of the request.  The composite weight is
  distance times traffic factor times risk factor; a zero-distance edge gets the floor
  weight.
\<close>

definition build_edge ::
  "Collaborators \<Rightarrow> DeliveryRequest \<Rightarrow> Coordinates list \<Rightarrow> nat \<Rightarrow> nat \<Rightarrow> WeightedEdge" where
  "build_edge env req coords i j =
     (let a = coords ! i; b = coords ! j;
          d = distance_between env a b;
          tf = traffic_factor env (avoid_peak_hours req = Some True) a b;
          rf = risk_factor env (prioritize_safety req = Some True) a b
      in \<lparr>edge_from = i, edge_to = j, edge_distance = d, edge_time = travel_time env a b,
          edge_risk = risk_contribution env a b, edge_risk_variance = risk_variance env a b,
          edge_weight = (if d = 0 then floor_weight env else d * tf * rf)\<rparr>)"

text \<open>
  Modelled from the spec: what the route solver is given (section 4.3): the number of
  nodes, the weighted graph, the per-node penalty for an arrival time (the soft time
  windows), and the iteration budget.
\<close>

record SolverInput =
  node_count :: nat
  graph_edge :: "nat \<Rightarrow> nat \<Rightarrow> WeightedEdge"
  arrival_penalty :: "nat \<Rightarrow> real \<Rightarrow> real"
  iteration_budget :: nat

text \<open>
  Modelled from the spec: the objective of a visiting order (section 4.3): the composite
  weights of its edges, plus the penalty of every arrival outside a time window.  The
  order is a path that starts at the depot and ends at the last stop (section 8: depot,
  \<open>(1,0)\<close>, \<open>(0,1)\<close> has total distance \<open>1 + \<surd>2\<close>).
\<close>

fun objective_from :: "SolverInput \<Rightarrow> real \<Rightarrow> nat list \<Rightarrow> real" where
  "objective_from inp clock [] = 0"
| "objective_from inp clock [a] = 0"
| "objective_from inp clock (a # b # rest) =
     (let e = graph_edge inp a b; arrive = clock + edge_time e
      in edge_weight e + arrival_penalty inp b arrive + objective_from inp arrive (b # rest))"

definition objective :: "SolverInput \<Rightarrow> nat list \<Rightarrow> real" where
  "objective inp t = objective_from inp 0 t"

text \<open>
  Modelled from the spec: the tie-break of section 4.3.  Of two orders of equal
  objective the one whose last edge has the smaller variance in risk is preferred, then
  the lexicographically smaller sequence of stop indices.
\<close>

fun lex_less :: "nat list \<Rightarrow> nat list \<Rightarrow> bool" where
  "lex_less [] [] = False"
| "lex_less [] (y # ys) = True"
| "lex_less (x # xs) [] = False"
| "lex_less (x # xs) (y # ys) = (x < y \<or> (x = y \<and> lex_less xs ys))"

definition last_edge_variance :: "SolverInput \<Rightarrow> nat list \<Rightarrow> real" where
  "last_edge_variance inp t =
     (if length t < 2 then 0
      else edge_risk_variance (graph_edge inp (t ! (length t - 2)) (t ! (length t - 1))))"

definition preferred :: "SolverInput \<Rightarrow> nat list \<Rightarrow> nat list \<Rightarrow> bool" where
  "preferred inp t u =
     (objective inp t < objective inp u
      \<or> (objective inp t = objective inp u
          \<and> (last_edge_variance inp t < last_edge_variance inp u
              \<or> (last_edge_variance inp t = last_edge_variance inp u \<and> lex_less t u))))"

text \<open>
  Modelled from the spec: the construction heuristic (section 4.3, CONSTRUCT):
  nearest neighbour.  From the current node the unvisited node with the lightest edge is
  visited next, the one of smallest index on a tie.
\<close>

fun nearest :: "SolverInput \<Rightarrow> nat \<Rightarrow> nat \<Rightarrow> nat list \<Rightarrow> nat" where
  "nearest inp cur best [] = best"
| "nearest inp cur best (u # us) =
     nearest inp cur
       (if edge_weight (graph_edge inp cur u) < edge_weight (graph_edge inp cur best) then u
        else best) us"

lemma nearest_in_set: "nearest inp cur best us \<in> set (best # us)"
  by (induction us arbitrary: best) (simp_all, fastforce)

function construct_from :: "SolverInput \<Rightarrow> nat \<Rightarrow> nat list \<Rightarrow> nat list" where
  "construct_from inp cur [] = []"
| "construct_from inp cur (u # us) =
     (let nxt = nearest inp cur u us
      in nxt # construct_from inp nxt (remove1 nxt (u # us)))"
  by pat_completeness auto
termination
proof (relation "measure (\<lambda>(inp, cur, remaining). length remaining)")
  fix inp :: SolverInput and cur u :: nat and us :: "nat list" and nxt :: nat
  assume "nxt = nearest inp cur u us"
  then have "nxt \<in> set (u # us)" by (simp only: nearest_in_set)
  then have "length (remove1 nxt (u # us)) = length (u # us) - 1"
    by (simp only: length_remove1 if_True)
  then show "((inp, nxt, remove1 nxt (u # us)), (inp, cur, u # us))
      \<in> measure (\<lambda>(inp, cur, remaining). length remaining)"
    by simp
qed simp

definition construct :: "SolverInput \<Rightarrow> nat list" where
  "construct inp = 0 # construct_from inp 0 [1 ..< node_count inp]"

text \<open>
  Modelled from the spec: the local search (section 4.3, IMPROVE): 2-opt.  A move
  reverses the part of the order between two positions after the depot; a pass takes
  the most preferred of the current order and all its moves.
\<close>

definition two_opt_move :: "nat \<Rightarrow> nat \<Rightarrow> nat list \<Rightarrow> nat list" where
  "two_opt_move i j t =
     (let before = take i t; rest = drop i t;
          middle = take (Suc j - i) rest; after = drop (Suc j - i) rest
      in before @ rev middle @ after)"

definition two_opt_moves :: "nat list \<Rightarrow> nat list list" where
  "two_opt_moves t =
     concat (map (\<lambda>i. map (\<lambda>j. two_opt_move i j t) [Suc i ..< length t]) [1 ..< length t])"

definition improve_pass :: "SolverInput \<Rightarrow> nat list \<Rightarrow> nat list" where
  "improve_pass inp t = fold (\<lambda>c best. if preferred inp c best then c else best) (two_opt_moves t) t"

text \<open>
  Modelled from the spec: the state machine of the solver (section 4.3):
  INIT, CONSTRUCT, IMPROVE, then DONE (no move is preferred to the current order) or
  TIMEOUT (the budget is used up; the best order found so far is kept).
\<close>

datatype solver_phase = INIT | CONSTRUCT | IMPROVE | DONE | TIMEOUT

record SolverState =
  phase :: solver_phase
  tour :: "nat list"
  budget_left :: nat

fun solver_step :: "SolverInput \<Rightarrow> SolverState \<Rightarrow> SolverState" where
  "solver_step inp st =
     (case phase st of
        INIT \<Rightarrow> st\<lparr>phase := CONSTRUCT\<rparr>
      | CONSTRUCT \<Rightarrow> st\<lparr>phase := IMPROVE, tour := construct inp\<rparr>
      | IMPROVE \<Rightarrow>
          (if budget_left st = 0 then st\<lparr>phase := TIMEOUT\<rparr>
           else
             let t = improve_pass inp (tour st)
             in if t = tour st then st\<lparr>phase := DONE\<rparr>
                else st\<lparr>tour := t, budget_left := budget_left st - 1\<rparr>)
      | DONE \<Rightarrow> st
      | TIMEOUT \<Rightarrow> st)"

definition solver_measure :: "SolverState \<Rightarrow> nat" where
  "solver_measure st =
     (case phase st of
        INIT \<Rightarrow> budget_left st + 3
      | CONSTRUCT \<Rightarrow> budget_left st + 2
      | IMPROVE \<Rightarrow> budget_left st + 1
      | DONE \<Rightarrow> 0
      | TIMEOUT \<Rightarrow> 0)"

function run_solver :: "SolverInput \<Rightarrow> SolverState \<Rightarrow> SolverState" where
  "run_solver inp st =
     (if phase st = DONE \<or> phase st = TIMEOUT then st
      else run_solver inp (solver_step inp st))"
  by pat_completeness auto
termination
  by (relation "measure (\<lambda>(inp, st). solver_measure st)")
    (auto simp: solver_measure_def Let_def split: solver_phase.splits)

declare run_solver.simps [simp del]

definition solve :: "SolverInput \<Rightarrow> SolverState" where
  "solve inp = run_solver inp \<lparr>phase = INIT, tour = [], budget_left = iteration_budget inp\<rparr>"

text \<open>
  Modelled from the spec: the request-level checks and the assembly of the primary
  route (sections 3, 4.2, 6 and 7).  The efficiency must be positive, every address must
  resolve, and at least two distinct points must remain.  The route lists the addresses
  and coordinates in visiting order and one segment per edge of the path.
\<close>

definition request_addresses :: "DeliveryRequest \<Rightarrow> string list" where
  "request_addresses req = start_location req # map address (stops req)"

fun resolve_all :: "Collaborators \<Rightarrow> string list \<Rightarrow> optimize_error + Coordinates list" where
  "resolve_all env [] = Inr []"
| "resolve_all env (a # as) =
     (case geocode env a of
        None \<Rightarrow> Inl (AddressResolutionError a)
      | Some c \<Rightarrow>
          (case resolve_all env as of
             Inl e \<Rightarrow> Inl e
           | Inr cs \<Rightarrow> Inr (c # cs)))"

definition solver_input :: "Collaborators \<Rightarrow> DeliveryRequest \<Rightarrow> Coordinates list \<Rightarrow> SolverInput" where
  "solver_input env req coords =
     \<lparr>node_count = length coords,
      graph_edge = build_edge env req coords,
      arrival_penalty = (\<lambda>node arrive. if node = 0 then 0 else window_penalty env (stops req ! (node - 1)) arrive),
      iteration_budget = search_budget env\<rparr>"

definition segment_of :: "string list \<Rightarrow> Coordinates list \<Rightarrow> WeightedEdge \<Rightarrow> RouteSegment" where
  "segment_of addrs coords e =
     \<lparr>from_address = addrs ! edge_from e, to_address = addrs ! edge_to e,
      from_coords = coords ! edge_from e, to_coords = coords ! edge_to e,
      distance_km = edge_distance e, estimated_time_min = edge_time e,
      risk_score = edge_risk e\<rparr>"

definition assemble_route ::
  "Collaborators \<Rightarrow> DeliveryRequest \<Rightarrow> Coordinates list \<Rightarrow> SolverInput \<Rightarrow> nat list \<Rightarrow> OptimizedRoute" where
  "assemble_route env req coords inp t =
     (let addrs = request_addresses req;
          segs = map (\<lambda>(a, b). segment_of addrs coords (graph_edge inp a b)) (zip t (tl t));
          dist = sum_list (map distance_km segs);
          time = sum_list (map estimated_time_min segs);
          risk = sum_list (map risk_score segs)
      in \<lparr>route_id = new_route_id env,
          ordered_stops = map (\<lambda>n. addrs ! n) t,
          coordinates = map (\<lambda>n. coords ! n) t,
          segments = segs,
          total_distance_km = dist, total_time_min = time, total_risk_score = risk,
          route_quality_score = quality_score env dist time risk,
          route_geometry = None\<rparr>)"

text \<open>
  Modelled from the spec: the primary route of the optimize operation, with the flag
  \<^verbatim>\<open>suboptimal\<close> (set on TIMEOUT and when the search did not improve on the construction
  heuristic).
\<close>

definition optimize_primary ::
  "Collaborators \<Rightarrow> DeliveryRequest \<Rightarrow> optimize_error + (OptimizedRoute \<times> bool)" where
  "optimize_primary env req =
     (if fuel_efficiency_mpg (vehicle req) \<le> 0 then Inl InvalidVehicleProfile
      else
        case resolve_all env (request_addresses req) of
          Inl e \<Rightarrow> Inl e
        | Inr coords \<Rightarrow>
            if length (remdups coords) < 2 then Inl DegenerateGraphError
            else
              let inp = solver_input env req coords;
                  final = solve inp;
                  suboptimal = (phase final = TIMEOUT \<or> tour final = construct inp)
              in Inr (assemble_route env req coords inp (tour final), suboptimal))"

text \<open>
  Modelled from the spec: a valid request (sections 6 and 7): positive fuel efficiency,
  every address resolved by the geocoder, at least two distinct points.
\<close>

definition valid_request :: "Collaborators \<Rightarrow> DeliveryRequest \<Rightarrow> bool" where
  "valid_request env req =
     (0 < fuel_efficiency_mpg (vehicle req)
      \<and> list_all (\<lambda>a. geocode env a \<noteq> None) (request_addresses req)
      \<and> 2 \<le> length (remdups (map (\<lambda>a. the (geocode env a)) (request_addresses req))))"

text \<open>
  The invariant of the solver's state machine: once the construction has run, the
  visiting order holds every node \<open>0, \<dots>, n - 1\<close> exactly once and starts at the depot.
\<close>

definition visits_all :: "nat \<Rightarrow> nat list \<Rightarrow> bool" where
  "visits_all n t = (mset t = mset [0 ..< n] \<and> hd t = 0)"

definition solver_invariant :: "SolverInput \<Rightarrow> SolverState \<Rightarrow> bool" where
  "solver_invariant inp st =
     (phase st = INIT \<or> phase st = CONSTRUCT \<or> visits_all (node_count inp) (tour st))"

section \<open>Sample values\<close>

text \<open>Concrete records on which the theorems below are exercised.\<close>

definition sample_route :: "string list \<Rightarrow> OptimizedRoute" where
  "sample_route ss =
     \<lparr>route_id = ''route-1'', ordered_stops = ss, coordinates = [], segments = [],
      total_distance_km = 12, total_time_min = 30, total_risk_score = 2,
      route_quality_score = 80, route_geometry = None\<rparr>"

definition sample_cost :: CostPrediction where
  "sample_cost =
     \<lparr>predicted_cost_usd = 500, confidence_lower = 450, confidence_upper = 550,
      cost_breakdown =
        \<lparr>estimated_fuel_liters = 2, base_fuel_cost = 400, traffic_penalty = 50,
         idle_cost = 30, stop_penalty = 20\<rparr>\<rparr>"

definition sample_alternative :: "string list \<Rightarrow> string \<Rightarrow> AlternativeRoute" where
  "sample_alternative ss r =
     \<lparr>route = sample_route ss, cost = sample_cost, recommendation = r, trade_offs = ''none''\<rparr>"

definition sample_alternatives :: "AlternativeRoute list" where
  "sample_alternatives =
     [sample_alternative [''Depot'', ''A''] ''first'',
      sample_alternative [''Depot'', ''A''] ''second'',
      sample_alternative [''Depot'', ''A''] ''third'']"

definition sample_zone :: "string \<Rightarrow> string \<Rightarrow> real \<Rightarrow> RiskZone" where
  "sample_zone n t l =
     \<lparr>name = n, center = \<lparr>lat = 25, lng = 68\<rparr>, radius_km = 1, risk_level = l,
      zone_type = t\<rparr>"

definition sample_zones :: "RiskZone list" where
  "sample_zones =
     [sample_zone ''Auto Bhan Road'' ''congestion'' 6,
      sample_zone ''Station Road'' ''accident'' 7,
      sample_zone ''Qasimabad Works'' ''construction'' 4,
      sample_zone ''Central Park'' ''crime'' 8,
      sample_zone ''Market Chowk'' ''congestion'' 5,
      sample_zone ''Hirabad'' ''accident'' 3,
      sample_zone ''Latifabad Unit 7'' ''construction'' 2,
      sample_zone ''Kotri Bridge'' ''accident'' 9,
      sample_zone ''Tower Market'' ''congestion'' 6,
      sample_zone ''Bypass Junction'' ''accident'' 7,
      sample_zone ''Cantt Gate'' ''crime'' 5]"

definition sample_validation_errors :: "json list" where
  "sample_validation_errors =
     [JObj [(''loc'', JArr [JStr ''body'', JStr ''stops'', JNum 0, JStr ''address'']),
            (''msg'', JStr ''field required''), (''type'', JStr ''value_error.missing'')],
      JObj [(''loc'', JArr [JStr ''body'', JStr ''vehicle'']), (''msg'', JStr ''bad value'')]]"

definition sample_rejection :: ApiError where
  "sample_rejection =
     \<lparr>response_detail = Some (JArr sample_validation_errors),
      message = Some ''Request failed with status code 422''\<rparr>"

text \<open>
  A sample instance of the engine: the depot at \<open>(0,0)\<close> and stops at \<open>(3,-2)\<close>, \<open>(1,-3)\<close>
  and \<open>(-1,-3)\<close>, with the taxicab distance standing in for the distance provider.  The
  nearest-neighbour order (depot, Market, Mill, Harbour; length 11) is improved by one
  2-opt move to depot, Mill, Market, Harbour (length 9).
\<close>

definition sample_env :: Collaborators where
  "sample_env =
     \<lparr>geocode = map_of
        [(''Depot'', \<lparr>lat = 0, lng = 0\<rparr>), (''Harbour'', \<lparr>lat = 3, lng = - 2\<rparr>),
         (''Market'', \<lparr>lat = 1, lng = - 3\<rparr>), (''Mill'', \<lparr>lat = - 1, lng = - 3\<rparr>)],
      distance_between = (\<lambda>a b. \<bar>lat a - lat b\<bar> + \<bar>lng a - lng b\<bar>),
      travel_time = (\<lambda>a b. 2 * (\<bar>lat a - lat b\<bar> + \<bar>lng a - lng b\<bar>)),
      traffic_factor = (\<lambda>avoid a b. if avoid then 1 else 3 / 2),
      risk_factor = (\<lambda>safety a b. 1),
      risk_contribution = (\<lambda>a b. 0),
      risk_variance = (\<lambda>a b. 0),
      floor_weight = 1 / 1000,
      window_penalty = (\<lambda>s arrive. 0),
      search_budget = 10,
      new_route_id = ''route-1'',
      quality_score = (\<lambda>d t r. 100 - r)\<rparr>"

definition sample_request :: DeliveryRequest where
  "sample_request =
     \<lparr>stops =
        [\<lparr>address = ''Harbour'', time_window = None, priority = Some 1\<rparr>,
         \<lparr>address = ''Market'', time_window = None, priority = Some 1\<rparr>,
         \<lparr>address = ''Mill'', time_window = None, priority = Some 1\<rparr>],
      vehicle = \<lparr>vehicle_type = ''van'', fuel_efficiency_mpg = 22, fuel_price_per_gallon = None\<rparr>,
      start_location = ''Depot'',
      avoid_peak_hours = Some True,
      prioritize_safety = Some False\<rparr>"

section \<open>Properties\<close>

subsection \<open>Rendering numbers\<close>

lemma digit_char_not_plus: "d < 10 \<Longrightarrow> digit_char d \<noteq> CHR ''+''"
proof -
  assume "d < 10"
  then have "d \<in> {0, 1, 2, 3, 4, 5, 6, 7, 8, 9}" by auto
  then show ?thesis by (auto simp: digit_char_def)
qed

lemma digit_char_not_S: "d < 10 \<Longrightarrow> digit_char d \<noteq> CHR ''S''"
proof -
  assume "d < 10"
  then have "d \<in> {0, 1, 2, 3, 4, 5, 6, 7, 8, 9}" by auto
  then show ?thesis by (auto simp: digit_char_def)
qed

lemma digits_onto_hd: "\<exists>d < 10. \<exists>rest. digits_onto n acc = digit_char d # rest"
proof (induction n acc rule: digits_onto.induct)
  case (1 n acc)
  show ?case
  proof (cases "n < 10")
    case True
    then show ?thesis by (subst digits_onto.simps) auto
  next
    case False
    with 1 show ?thesis by (subst digits_onto.simps) auto
  qed
qed

lemma decimal_of_nat_nonempty: "decimal_of_nat n \<noteq> []"
  using digits_onto_hd [of n "[]"] by (auto simp: decimal_of_nat_def)

lemma hd_decimal_of_nat: "\<exists>d < 10. hd (decimal_of_nat n) = digit_char d"
  using digits_onto_hd [of n "[]"] by (auto simp: decimal_of_nat_def)

lemma toFixed1_nonneg_hd:
  assumes "0 \<le> x"
  shows "toFixed1 x \<noteq> [] \<and> hd (toFixed1 x) \<noteq> CHR ''+'' \<and> hd (toFixed1 x) \<noteq> CHR ''S''"
proof -
  define n where "n = nat \<lfloor>\<bar>x\<bar> * 10 + 1 / 2\<rfloor>"
  obtain d where d: "d < 10" "hd (decimal_of_nat (n div 10)) = digit_char d"
    using hd_decimal_of_nat by blast
  have eq: "toFixed1 x = decimal_of_nat (n div 10) @ ''.'' @ decimal_of_nat (n mod 10)"
    using assms by (simp add: toFixed1_def n_def Let_def)
  have "hd (toFixed1 x) = digit_char d"
    using d by (simp add: eq decimal_of_nat_nonempty)
  with d show ?thesis
    by (simp add: eq decimal_of_nat_nonempty digit_char_not_plus digit_char_not_S)
qed

subsection \<open>Risk classification\<close>

text \<open>
  On every integer risk value, \<^verbatim>\<open>getRiskLabel\<close> and RouteMap's \<^verbatim>\<open>getRiskColor\<close> name the
  bucket of the documented table, and RouteComparison's \<^verbatim>\<open>getRiskColor\<close> names the bucket
  of another table: low up to 1, medium up to 4, high up to 6, critical from 7.
\<close>

lemma sibling_risk_functions_follow_table:
  "bucket_of_label (getRiskLabel (of_int v)) = Some (threshold_table v)
   \<and> bucket_of_label (getRiskColor_RouteMap (of_int v)) = Some (threshold_table v)"
  by (simp add: getRiskLabel_def getRiskColor_RouteMap_def threshold_table_def bucket_of_label_def)

lemma getRiskColor_RouteComparison_buckets:
  "bucket_of_label (getRiskColor_RouteComparison (of_int v))
     = Some (if v \<le> 1 then Low else if v \<le> 4 then Medium else if v \<le> 6 then High else Critical)"
  by (simp add: getRiskColor_RouteComparison_def bucket_of_label_def)

text \<open>
  C1 (evaluation at the risk value 2).  The documented table puts 2 in the low bucket.
  \<^verbatim>\<open>getRiskLabel\<close> and RouteMap's \<^verbatim>\<open>getRiskColor\<close> do so; RouteComparison's
  \<^verbatim>\<open>getRiskColor\<close> returns the warning colour, the medium bucket.
\<close>

theorem getRiskColor_RouteComparison_at_2:
  "threshold_table 2 = Low
   \<and> bucket_of_label (getRiskLabel 2) = Some Low
   \<and> bucket_of_label (getRiskColor_RouteMap 2) = Some Low
   \<and> getRiskColor_RouteComparison 2 = ''text-warning''
   \<and> bucket_of_label (getRiskColor_RouteComparison 2) = Some Medium"
  by (simp add: threshold_table_def bucket_of_label_def getRiskLabel_def
      getRiskColor_RouteMap_def getRiskColor_RouteComparison_def)

subsection \<open>Route comparison\<close>

text \<open>
  C7.  In the list of headings that RouteComparison renders, the alternative at position
  0, 1 or 2 whose route has at least one ordered stop is headed
  \<^verbatim>\<open>Shortest Distance\<close>, \<^verbatim>\<open>Safest Route\<close> and \<^verbatim>\<open>Off-Peak Schedule\<close> respectively.
\<close>

theorem alternativeHeadings_canonical:
  assumes "i < length alts" and "ordered_stops (route (alts ! i)) \<noteq> []"
  shows "(i = 0 \<longrightarrow> alternativeHeadings alts ! i = ''Shortest Distance'')
       \<and> (i = 1 \<longrightarrow> alternativeHeadings alts ! i = ''Safest Route'')
       \<and> (i = 2 \<longrightarrow> alternativeHeadings alts ! i = ''Off-Peak Schedule'')"
proof -
  have "alternativeHeadings alts ! i = alternativeHeading (alts ! i) i"
    using assms(1) by (simp add: alternativeHeadings_def nth_enumerate_eq)
  also have "\<dots> = getAlternativeName i"
    using assms(2) by (simp add: alternativeHeading_def)
  finally show ?thesis
    by (auto simp: getAlternativeName_def)
qed

theorem alternativeHeadings_canonical_witness:
  "(1::nat) < length sample_alternatives
   \<and> ordered_stops (route (sample_alternatives ! 1)) \<noteq> []
   \<and> alternativeHeadings sample_alternatives ! 1 = ''Safest Route''"
  using alternativeHeadings_canonical [of 1 sample_alternatives]
  by (simp add: sample_alternatives_def sample_alternative_def sample_route_def)

text \<open>
  C8.  \<^verbatim>\<open>getDifferenceText\<close> returns the same text for \<^verbatim>\<open>lowerIsBetter = true\<close> and
  \<^verbatim>\<open>false\<close>; it returns \<^verbatim>\<open>Same\<close> exactly when the absolute difference is below 0.01;
  otherwise the text is the absolute difference with one decimal and the unit, with a
  leading \<^verbatim>\<open>+\<close> exactly when the alternative value exceeds the primary value.
\<close>

theorem getDifferenceText_lowerIsBetter_irrelevant:
  "getDifferenceText p a u True = getDifferenceText p a u False
   \<and> (getDifferenceText p a u b = ''Same'' \<longleftrightarrow> \<bar>a - p\<bar> < 1 / 100)
   \<and> (\<not> \<bar>a - p\<bar> < 1 / 100 \<longrightarrow>
        getDifferenceText p a u b = (if a > p then ''+'' else '''') @ toFixed1 \<bar>a - p\<bar> @ u
        \<and> (hd (getDifferenceText p a u b) = CHR ''+'' \<longleftrightarrow> a > p))"
proof -
  define x where "x = \<bar>a - p\<bar>"
  have indep: "getDifferenceText p a u True = getDifferenceText p a u False"
    by (simp add: getDifferenceText_def Let_def)
  have "0 \<le> x" by (simp add: x_def)
  then have tf: "toFixed1 x \<noteq> []" "hd (toFixed1 x) \<noteq> CHR ''+''" "hd (toFixed1 x) \<noteq> CHR ''S''"
    using toFixed1_nonneg_hd by blast+
  have same: "getDifferenceText p a u b = ''Same''" if "x < 1 / 100"
    using that by (simp add: getDifferenceText_def Let_def x_def)
  have shape: "getDifferenceText p a u b = (if a > p then ''+'' else '''') @ toFixed1 x @ u"
    if "\<not> x < 1 / 100"
    using that by (simp add: getDifferenceText_def Let_def x_def)
  have hd_eq: "hd (getDifferenceText p a u b) = (if a > p then CHR ''+'' else hd (toFixed1 x))"
    if "\<not> x < 1 / 100"
  proof (cases "a > p")
    case True
    then show ?thesis by (simp add: shape[OF that])
  next
    case False
    then show ?thesis using tf(1) by (simp add: shape[OF that])
  qed
  have not_same: "getDifferenceText p a u b \<noteq> ''Same''" if "\<not> x < 1 / 100"
  proof
    assume "getDifferenceText p a u b = ''Same''"
    then have "hd (getDifferenceText p a u b) = CHR ''S''" by simp
    with hd_eq[OF that] tf show False by (simp split: if_splits)
  qed
  have plus: "(hd (getDifferenceText p a u b) = CHR ''+'') = (a > p)" if "\<not> x < 1 / 100"
    using hd_eq[OF that] tf(2) by simp
  have "getDifferenceText p a u True = getDifferenceText p a u False
   \<and> (getDifferenceText p a u b = ''Same'' \<longleftrightarrow> x < 1 / 100)
   \<and> (\<not> x < 1 / 100 \<longrightarrow>
        getDifferenceText p a u b = (if a > p then ''+'' else '''') @ toFixed1 x @ u
        \<and> (hd (getDifferenceText p a u b) = CHR ''+'' \<longleftrightarrow> a > p))"
    using indep same shape not_same plus by blast
  then show ?thesis unfolding x_def .
qed

theorem getDifferenceText_lowerIsBetter_irrelevant_witness:
  "getDifferenceText 10 (1234 / 100) ''km'' True = getDifferenceText 10 (1234 / 100) ''km'' False
   \<and> getDifferenceText 10 (1234 / 100) ''km'' True = ''+2.3km''
   \<and> hd (getDifferenceText 10 (1234 / 100) ''km'' True) = CHR ''+''
   \<and> getDifferenceText 12 10 ''min'' False = ''2.0min''
   \<and> getDifferenceText 500 (500 + 1 / 1000) ''Rs.'' True = ''Same''"
  using getDifferenceText_lowerIsBetter_irrelevant [of 10 "1234 / 100" "''km''" True]
  by (simp add: getDifferenceText_def toFixed1_def digits_onto.simps decimal_of_nat_def digit_char_def)

subsection \<open>The delivery form\<close>

lemma length_remove_at: "length xs - 1 \<le> length (remove_at i xs)"
proof -
  have "length (remove_at i xs) = length (filter (\<lambda>p. fst p \<noteq> i) (enumerate 0 xs))"
    by (simp add: remove_at_def case_prod_unfold)
  also have "\<dots> = length (filter (\<lambda>k. k \<noteq> i) (map fst (enumerate 0 xs)))"
    unfolding filter_map by (simp add: comp_def)
  also have "\<dots> = length (filter (\<lambda>k. k \<noteq> i) [0..<length xs])"
    by simp
  also have "\<dots> = card ({k. k \<noteq> i} \<inter> set [0..<length xs])"
    by (rule distinct_length_filter) simp
  also have "{k. k \<noteq> i} \<inter> set [0..<length xs] = {..<length xs} - {i}"
    by auto
  also have "card \<dots> \<ge> length xs - 1"
    by (simp add: card_Diff_singleton_if)
  finally show ?thesis .
qed

lemma form_step_keeps_a_stop:
  assumes "1 \<le> length (form_stops s)"
  shows "1 \<le> length (form_stops (form_step s e))"
proof (cases e)
  case (RemoveStop i)
  show ?thesis
    using assms length_remove_at [of "form_stops s" i]
    by (auto simp: RemoveStop removeStop_def)
qed (use assms in \<open>simp_all add: addStop_def updateStop_def\<close>)

lemma form_step2_keeps_a_stop:
  assumes "1 \<le> length (form_stops s)"
  shows "1 \<le> length (form_stops (form_step2 s e))"
proof (cases e)
  case (RemoveStop i)
  show ?thesis
    using assms length_remove_at [of "form_stops s" i]
    by (auto simp: RemoveStop removeStop2_def)
qed (use assms in \<open>simp_all add: addStop2_def updateStop2_def vehicleTypeEffect_def split: option.splits\<close>)

lemma foldl_form_step_keeps_a_stop:
  "1 \<le> length (form_stops s) \<Longrightarrow> 1 \<le> length (form_stops (foldl form_step s events))"
proof (induction events arbitrary: s)
  case Nil
  then show ?case by simp
next
  case (Cons e events)
  from Cons.prems have "1 \<le> length (form_stops (form_step s e))"
    by (rule form_step_keeps_a_stop)
  then show ?case using Cons.IH by simp
qed

lemma foldl_form_step2_keeps_a_stop:
  "1 \<le> length (form_stops s) \<Longrightarrow> 1 \<le> length (form_stops (foldl form_step2 s events))"
proof (induction events arbitrary: s)
  case Nil
  then show ?case by simp
next
  case (Cons e events)
  from Cons.prems have "1 \<le> length (form_stops (form_step2 s e))"
    by (rule form_step2_keeps_a_stop)
  then show ?case using Cons.IH by simp
qed

text \<open>
  C4.  From the initial state (one stop), after any sequence of form events (addStop,
  removeStop, updateStop and the setters) the stops list has length at least 1, in both
  variants of the form, and so has the stops list of the request that \<^verbatim>\<open>handleSubmit\<close>
  builds.
\<close>

theorem form_always_has_a_stop:
  "1 \<le> length (form_stops (form_run events))
   \<and> 1 \<le> length (stops (handleSubmit (form_run events)))
   \<and> 1 \<le> length (form_stops (form_run2 events))
   \<and> 1 \<le> length (stops (handleSubmit2 (form_run2 events)))"
proof -
  have "1 \<le> length (form_stops initialForm)"
    by (simp add: initialForm_def)
  moreover from this have "1 \<le> length (form_stops initialForm2)"
    by (simp add: initialForm2_def vehicleTypeEffect_def split: option.splits)
  ultimately show ?thesis
    unfolding form_run_def form_run2_def
    using foldl_form_step_keeps_a_stop [of initialForm events]
      foldl_form_step2_keeps_a_stop [of initialForm2 events]
    by (simp add: handleSubmit_def handleSubmit2_def)
qed

text \<open>
  C10.  On the same form state the \<^verbatim>\<open>handleSubmit\<close> of the first variant and the
  \<^verbatim>\<open>handleSubmit\<close> of the second variant build the same request.
\<close>

theorem handleSubmit_variants_agree: "handleSubmit s = handleSubmit2 s"
  by (simp add: handleSubmit_def handleSubmit2_def)

subsection \<open>The risk zones page\<close>

lemma js_slice_nat: "js_slice xs (int a) (int b) = take (b - a) (drop a xs)"
proof -
  have na: "\<not> int a < 0" "\<not> int b < 0" by simp_all
  have m: "min (int b) (int (length xs)) = int (min b (length xs))"
    "min (int a) (int (length xs)) = int (min a (length xs))" by simp_all
  have "js_slice xs (int a) (int b)
      = take (nat (min (int b) (int (length xs)) - min (int a) (int (length xs))))
          (drop (nat (min (int a) (int (length xs)))) xs)"
    unfolding js_slice_def Let_def if_not_P[OF na(1)] if_not_P[OF na(2)] ..
  also have "\<dots> = take (min b (length xs) - min a (length xs)) (drop (min a (length xs)) xs)"
    unfolding m by (simp add: nat_diff_distrib' del: of_nat_min)
  also have "\<dots> = take (b - a) (drop a xs)"
    by (cases "a \<le> length xs"; cases "b \<le> length xs") (simp_all add: min_def)
  finally show ?thesis .
qed

lemma pages_cover:
  assumes "0 < n"
  shows "length xs \<le> nat \<lceil>real (length xs) / real n\<rceil> * n"
proof -
  define c where "c = \<lceil>real (length xs) / real n\<rceil>"
  have "0 \<le> real (length xs) / real n" by simp
  then have c0: "0 \<le> c" unfolding c_def by linarith
  have "real (length xs) / real n \<le> real_of_int c" by (simp add: c_def)
  moreover have "0 < real n" using assms by simp
  ultimately have "real (length xs) \<le> real_of_int c * real n"
    by (simp add: pos_divide_le_eq)
  also have "real_of_int c * real n = real (nat c * n)"
    using c0 by simp
  finally show ?thesis unfolding c_def by linarith
qed


lemma js_slice_page:
  "js_slice xs ((int (Suc k) - 1) * int n) (int (Suc k) * int n) = take n (drop (k * n) xs)"
proof -
  have "(int (Suc k) - 1) * int n = int (k * n)" "int (Suc k) * int n = int (k * n + n)"
    by (simp_all add: algebra_simps)
  then show ?thesis by (simp only: js_slice_nat) simp
qed

lemma length_js_slice_page:
  "length (js_slice xs ((p - 1) * int n) (p * int n)) \<le> n"
proof -
  consider "1 \<le> p" | "p = 0" | "p < 0" "n = 0" | "p < 0" "0 < n" by linarith
  then show ?thesis
  proof cases
    case 1
    define k where "k = nat (p - 1)"
    from 1 have "p = int (Suc k)" by (simp add: k_def)
    then show ?thesis by (simp only: js_slice_page) simp
  next
    case 2
    then show ?thesis by (simp add: js_slice_def Let_def)
  next
    case 3
    then show ?thesis by (simp add: js_slice_def Let_def)
  next
    case 4
    then have neg: "(p - 1) * int n < 0" "p * int n < 0"
      by (simp_all add: mult_less_0_iff)
    define len where "len = int (length xs)"
    define s where "s = (p - 1) * int n"
    have e: "p * int n = s + int n" by (simp add: s_def algebra_simps)
    have "nat (max (len + (s + int n)) 0 - max (len + s) 0) \<le> n"
      by (auto simp: max_def)
    then show ?thesis
      using neg unfolding js_slice_def Let_def e s_def [symmetric] len_def [symmetric]
      by (simp add: min_le_iff_disj)
  qed
qed

lemma set_js_slice: "set (js_slice xs s e) \<subseteq> set xs"
  unfolding js_slice_def Let_def
  by (meson in_set_dropD in_set_takeD subsetI)

lemma concat_chunks: "concat (map (\<lambda>k. take n (drop (k * n) xs)) [0..<m]) = take (m * n) xs"
proof (induction m)
  case 0
  then show ?case by simp
next
  case (Suc m)
  have "take (Suc m * n) xs = take (m * n + n) xs" by (simp add: add.commute)
  also have "\<dots> = take (m * n) xs @ take n (drop (m * n) xs)" by (rule take_add)
  finally show ?case using Suc by simp
qed

lemma map_Suc_upt': "map f [1..<Suc m] = map (\<lambda>k. f (Suc k)) [0..<m]"
proof -
  have "[1..<Suc m] = map Suc [0..<m]"
    by (simp only: map_Suc_upt One_nat_def)
  then show ?thesis
    by (simp only: map_map o_def)
qed

lemma str_includes_empty: "str_includes s []"
  by (cases s) simp_all

lemma allPages_unfold:
  "allPages zs sel q
      = concat (map (\<lambda>p. js_slice (filteredZones zs sel q) ((int p - 1) * int 9) (int p * int 9)) [1..<Suc (totalPages zs sel q)])"
  unfolding allPages_def paginatedZones_def ZONES_PER_PAGE_def ..

lemma totalPages_cover: "length (filteredZones zs sel q) \<le> totalPages zs sel q * 9"
  unfolding totalPages_def ZONES_PER_PAGE_def
  by (rule pages_cover) simp

text \<open>
  C9.  For every list of zones, type filter, search query and current page: the page
  shown holds at most 9 zones; every zone on it has the selected type (when a type is
  selected) and contains the lower-cased query in its lower-cased name or zone type; and
  the pages 1 to \<^verbatim>\<open>totalPages\<close>, one after the other, are exactly the filtered list.
\<close>

theorem paginatedZones_pages:
  "length (paginatedZones zs sel q page) \<le> 9
   \<and> (\<forall>z \<in> set (paginatedZones zs sel q page).
        (case sel of None \<Rightarrow> True | Some t \<Rightarrow> t \<noteq> [] \<longrightarrow> zone_type z = t)
        \<and> (str_includes (toLowerCase (name z)) (toLowerCase q)
             \<or> str_includes (toLowerCase (zone_type z)) (toLowerCase q)))
   \<and> allPages zs sel q = filteredZones zs sel q"
proof (intro conjI ballI)
  show "length (paginatedZones zs sel q page) \<le> 9"
    unfolding paginatedZones_def ZONES_PER_PAGE_def
    by (rule length_js_slice_page)
next
  fix z
  assume "z \<in> set (paginatedZones zs sel q page)"
  then have "z \<in> set (filteredZones zs sel q)"
    unfolding paginatedZones_def using set_js_slice by (rule subsetD [rotated])
  then have m: "matchesType sel z" "matchesSearch q z"
    by (simp_all add: filteredZones_def)
  from m(1) show "case sel of None \<Rightarrow> True | Some t \<Rightarrow> t \<noteq> [] \<longrightarrow> zone_type z = t"
    by (simp add: matchesType_def split: option.splits if_splits)
  from m(2) show "str_includes (toLowerCase (name z)) (toLowerCase q)
      \<or> str_includes (toLowerCase (zone_type z)) (toLowerCase q)"
    by (cases "q = []") (simp_all add: matchesSearch_def toLowerCase_def str_includes_empty)
next
  define xs where "xs = filteredZones zs sel q"
  define m where "m = totalPages zs sel q"
  have cover: "length xs \<le> m * 9"
    unfolding xs_def m_def by (rule totalPages_cover)
  have "allPages zs sel q
      = concat (map (\<lambda>p. js_slice xs ((int p - 1) * int 9) (int p * int 9)) [1..<Suc m])"
    unfolding xs_def m_def by (rule allPages_unfold)
  also have "\<dots> = concat (map (\<lambda>k. js_slice xs ((int (Suc k) - 1) * int 9) (int (Suc k) * int 9)) [0..<m])"
    by (simp only: map_Suc_upt')
  also have "\<dots> = concat (map (\<lambda>k. take 9 (drop (k * 9) xs)) [0..<m])"
    by (simp only: js_slice_page)
  also have "\<dots> = take (m * 9) xs"
    by (rule concat_chunks)
  also have "\<dots> = xs"
    using cover by (rule take_all)
  finally show "allPages zs sel q = filteredZones zs sel q"
    unfolding xs_def .
qed

theorem paginatedZones_pages_witness:
  "paginatedZones sample_zones (Some ''crime'') ''PARK'' 1 = [sample_zone ''Central Park'' ''crime'' 8]
   \<and> zone_type (sample_zone ''Central Park'' ''crime'' 8) = ''crime''
   \<and> str_includes (toLowerCase (name (sample_zone ''Central Park'' ''crime'' 8))) (toLowerCase ''PARK'')
   \<and> totalPages sample_zones None '''' = 2
   \<and> length (paginatedZones sample_zones None '''' 1) = 9
   \<and> length (paginatedZones sample_zones None '''' 2) = 2
   \<and> allPages sample_zones None '''' = sample_zones"
proof -
  have page: "paginatedZones sample_zones (Some ''crime'') ''PARK'' 1
      = [sample_zone ''Central Park'' ''crime'' 8]"
    by code_simp
  have total: "totalPages sample_zones None '''' = 2"
    by code_simp
  have lens: "length (paginatedZones sample_zones None '''' 1) = 9"
    "length (paginatedZones sample_zones None '''' 2) = 2"
    by code_simp+
  have all: "filteredZones sample_zones None '''' = sample_zones"
    by code_simp
  have inc: "str_includes (toLowerCase (name (sample_zone ''Central Park'' ''crime'' 8))) (toLowerCase ''PARK'')"
    by code_simp
  show ?thesis
    using paginatedZones_pages [of sample_zones None "''''" 1]
      paginatedZones_pages [of sample_zones "Some ''crime''" "''PARK''" 1] page total lens all inc
    by (simp add: sample_zone_def)
qed

subsection \<open>The optimizer page\<close>

lemma decimal_of_int_nonempty: "decimal_of_int i \<noteq> []"
  by (simp add: decimal_of_int_def decimal_of_nat_nonempty)

lemma stringify_nonempty: "stringify j \<noteq> []"
  by (cases j) (simp_all add: decimal_of_int_nonempty json_quote_def)

lemma join_with_nonempty: "x \<noteq> [] \<Longrightarrow> join_with sep (x # xs) \<noteq> []"
  by (cases xs) simp_all

lemma those_loc_items:
  "list_all is_loc_item xs \<Longrightarrow>
   those (map (\<lambda>x. if x = JNull then Some [] else js_to_string x) xs)
     = Some (map loc_item_text xs)"
proof (induction xs)
  case Nil
  show ?case by simp
next
  case (Cons x xs)
  then have "is_loc_item x" and rest: "list_all is_loc_item xs" by simp_all
  then have "(if x = JNull then Some [] else js_to_string x) = Some (loc_item_text x)"
    by (cases x) simp_all
  with Cons.IH [OF rest] show ?case by simp
qed

lemma js_join_loc_items:
  "list_all is_loc_item xs \<Longrightarrow> js_join sep xs = Some (join_with sep (map loc_item_text xs))"
  by (simp add: js_join_def those_loc_items)

lemma errorEntry_validation_error:
  assumes "validation_error e"
  shows "errorEntry e = Some (failing_field_text e)"
proof -
  from assms obtain kvs where e: "e = JObj kvs"
    by (cases e) (simp_all add: validation_error_def)
  from assms e obtain m where m: "map_of kvs ''msg'' = Some (JStr m)"
    by (auto simp: validation_error_def split: option.splits json.splits)
  show ?thesis
  proof (cases "map_of kvs ''loc''")
    case None
    then show ?thesis
      by (simp add: e m errorEntry_def failing_field_text_def loc_path_def msg_text_def)
  next
    case (Some l)
    show ?thesis
    proof (cases l)
      case JNull
      then show ?thesis
        using Some by (simp add: e m errorEntry_def failing_field_text_def loc_path_def msg_text_def)
    next
      case (JArr xs)
      with assms e Some have "list_all is_loc_item xs"
        by (simp add: validation_error_def)
      then have "js_join arrow_sep xs = Some (join_with arrow_sep (map loc_item_text xs))"
        by (rule js_join_loc_items)
      then show ?thesis
        using Some JArr
        by (simp add: e m errorEntry_def failing_field_text_def loc_path_def msg_text_def Let_def)
    qed (use assms e Some in \<open>simp_all add: validation_error_def\<close>)
  qed
qed

lemma those_validation_errors:
  "list_all validation_error es \<Longrightarrow> those (map errorEntry es) = Some (map failing_field_text es)"
proof (induction es)
  case Nil
  show ?case by simp
next
  case (Cons e es)
  then have "errorEntry e = Some (failing_field_text e)" and "list_all validation_error es"
    by (simp_all add: errorEntry_validation_error)
  with Cons.IH show ?case by simp
qed

lemma failing_field_text_nonempty: "failing_field_text e \<noteq> []"
  by (simp add: failing_field_text_def Let_def)

lemma fromMessage_nonempty:
  "(case message err of Some m \<Rightarrow> if m \<noteq> [] then m else defaultErrorMessage
    | None \<Rightarrow> defaultErrorMessage) \<noteq> []"
  by (simp add: defaultErrorMessage_def split: option.splits)

lemma extractErrorMessage_array:
  assumes "response_detail err = Some (JArr es)" and "list_all validation_error es"
  shows "extractErrorMessage err = Some (join_with ''; '' (map failing_field_text es))"
  using assms by (simp add: extractErrorMessage_def those_validation_errors)

lemma extractErrorMessage_nonempty:
  assumes "\<forall>es. response_detail err = Some (JArr es) \<longrightarrow> es \<noteq> [] \<and> list_all validation_error es"
  shows "\<exists>m. extractErrorMessage err = Some m \<and> m \<noteq> []"
proof (cases "response_detail err")
  case None
  then show ?thesis using fromMessage_nonempty [of err] by (simp add: extractErrorMessage_def)
next
  case (Some d)
  show ?thesis
  proof (cases "truthy d")
    case False
    then show ?thesis
      using Some fromMessage_nonempty [of err] by (simp add: extractErrorMessage_def)
  next
    case True
    show ?thesis
    proof (cases d)
      case (JArr es)
      with assms Some have ne: "es \<noteq> []" and wf: "list_all validation_error es" by simp_all
      from ne obtain e es' where "es = e # es'" by (cases es) auto
      then have "join_with ''; '' (map failing_field_text es) \<noteq> []"
        by (simp add: join_with_nonempty failing_field_text_nonempty)
      then show ?thesis
        using extractErrorMessage_array [of err es] Some JArr wf by simp
    next
      case (JStr s)
      then show ?thesis using Some True by (simp add: extractErrorMessage_def)
    next
      case JNull
      then show ?thesis using True by simp
    next
      case (JBool b)
      then show ?thesis using Some True by (simp add: extractErrorMessage_def)
    next
      case (JNum n)
      then show ?thesis using Some True by (simp add: extractErrorMessage_def decimal_of_int_nonempty)
    next
      case (JObj kvs)
      then show ?thesis
        using Some stringify_nonempty [of d] by (simp add: extractErrorMessage_def del: stringify.simps)
    qed
  qed
qed

text \<open>
  C5 (as amended).  When the optimize call is rejected, the result state is null
  afterwards.  If the rejection's detail is a list of validation errors (objects whose
  \<^verbatim>\<open>loc\<close> is missing, null or an array of strings and integers and whose \<^verbatim>\<open>msg\<close> is a
  string), the displayed message is the entries separated by \<^verbatim>\<open>'; '\<close>; an entry is the
  location path joined with the arrow separator, then \<^verbatim>\<open>': '\<close> and the message, and
  \<^verbatim>\<open>Field\<close> stands for a path that is missing or joins to the empty string.  A non-empty
  string detail is displayed verbatim; an empty string detail is not: the text of
  \<^verbatim>\<open>err.message\<close>, or else the default text, is displayed.  The error state is set to a
  non-empty string whenever the detail is not an array, or is a non-empty array of
  validation errors.
\<close>

theorem handleOptimize_failure:
  "result (handleOptimize st (Inl err)) = None
   \<and> (\<forall>es. response_detail err = Some (JArr es) \<and> list_all validation_error es \<longrightarrow>
          error (handleOptimize st (Inl err))
            = Some (join_with ''; '' (map failing_field_text es)))
   \<and> (\<forall>s. response_detail err = Some (JStr s) \<and> s \<noteq> [] \<longrightarrow>
          error (handleOptimize st (Inl err)) = Some s)
   \<and> (response_detail err = Some (JStr []) \<longrightarrow>
          error (handleOptimize st (Inl err)) =
            Some (case message err of
                    Some m \<Rightarrow> if m \<noteq> [] then m else defaultErrorMessage
                  | None \<Rightarrow> defaultErrorMessage))
   \<and> ((\<forall>es. response_detail err = Some (JArr es) \<longrightarrow> es \<noteq> [] \<and> list_all validation_error es) \<longrightarrow>
          (\<exists>m. error (handleOptimize st (Inl err)) = Some m \<and> m \<noteq> []))"
proof -
  have err_eq: "error (handleOptimize st (Inl err)) = extractErrorMessage err"
    by (simp add: handleOptimize_def Let_def split: option.splits)
  have res: "result (handleOptimize st (Inl err)) = None"
    by (simp add: handleOptimize_def Let_def split: option.splits)
  have arr: "extractErrorMessage err = Some (join_with ''; '' (map failing_field_text es))"
    if "response_detail err = Some (JArr es) \<and> list_all validation_error es" for es
    using that extractErrorMessage_array by blast
  have str: "extractErrorMessage err = Some s"
    if "response_detail err = Some (JStr s) \<and> s \<noteq> []" for s
    using that by (simp add: extractErrorMessage_def)
  have empty: "extractErrorMessage err =
      Some (case message err of Some m \<Rightarrow> if m \<noteq> [] then m else defaultErrorMessage
            | None \<Rightarrow> defaultErrorMessage)"
    if "response_detail err = Some (JStr [])"
    using that by (simp add: extractErrorMessage_def)
  have nonempty: "\<exists>m. extractErrorMessage err = Some m \<and> m \<noteq> []"
    if "\<forall>es. response_detail err = Some (JArr es) \<longrightarrow> es \<noteq> [] \<and> list_all validation_error es"
    using that by (rule extractErrorMessage_nonempty)
  show ?thesis
    unfolding err_eq using res arr str empty nonempty by blast
qed

theorem handleOptimize_failure_witness:
  "response_detail sample_rejection = Some (JArr sample_validation_errors)
   \<and> sample_validation_errors \<noteq> []
   \<and> list_all validation_error sample_validation_errors
   \<and> result (handleOptimize initialOptimizer (Inl sample_rejection)) = None
   \<and> error (handleOptimize initialOptimizer (Inl sample_rejection))
       = Some (''body'' @ arrow_sep @ ''stops'' @ arrow_sep @ ''0'' @ arrow_sep @ ''address''
               @ '': field required; '' @ ''body'' @ arrow_sep @ ''vehicle'' @ '': bad value'')
   \<and> error (handleOptimize initialOptimizer
         (Inl \<lparr>response_detail = Some (JStr ''Could not geocode address''),
               message = None\<rparr>))
       = Some ''Could not geocode address''"
proof -
  have d: "response_detail sample_rejection = Some (JArr sample_validation_errors)"
    by (simp add: sample_rejection_def)
  have ne: "sample_validation_errors \<noteq> []"
    by (simp add: sample_validation_errors_def)
  have wf: "list_all validation_error sample_validation_errors"
    by code_simp
  have shown: "join_with ''; '' (map failing_field_text sample_validation_errors)
      = ''body'' @ arrow_sep @ ''stops'' @ arrow_sep @ ''0'' @ arrow_sep @ ''address''
        @ '': field required; '' @ ''body'' @ arrow_sep @ ''vehicle'' @ '': bad value''"
    by code_simp
  show ?thesis
    using handleOptimize_failure [of initialOptimizer sample_rejection]
      handleOptimize_failure [of initialOptimizer
        "\<lparr>response_detail = Some (JStr ''Could not geocode address''), message = None\<rparr>"]
      d ne wf shown
    by simp
qed

text \<open>
  C5 as stated fails on the empty string: that detail is falsy, so it is not displayed
  verbatim; the default text is.  Nor is the error state a non-empty string in every
  failure: the empty list of validation errors, which is truthy, leaves the empty
  string in it, and a list with a null entry, or with an entry whose \<^verbatim>\<open>loc\<close> is not an
  array, makes the \<^verbatim>\<open>catch\<close> block throw and leaves it null.
\<close>

theorem handleOptimize_empty_detail_counterexample:
  "error (handleOptimize initialOptimizer
       (Inl \<lparr>response_detail = Some (JStr ''''), message = None\<rparr>))
     = Some ''Failed to optimize route. Please check your inputs and try again.''
   \<and> error (handleOptimize initialOptimizer
       (Inl \<lparr>response_detail = Some (JStr ''''), message = None\<rparr>))
     \<noteq> Some ''''
   \<and> error (handleOptimize initialOptimizer
       (Inl \<lparr>response_detail = Some (JArr []), message = Some ''Network Error''\<rparr>))
     = Some ''''
   \<and> error (handleOptimize initialOptimizer
       (Inl \<lparr>response_detail = Some (JArr [JNull]), message = Some ''Network Error''\<rparr>))
     = None
   \<and> error (handleOptimize initialOptimizer
       (Inl \<lparr>response_detail =
               Some (JArr [JObj [(''loc'', JStr ''body''), (''msg'', JStr ''bad value'')]]),
             message = Some ''Network Error''\<rparr>))
     = None"
  by (simp add: handleOptimize_def extractErrorMessage_def defaultErrorMessage_def
      errorEntry_def initialOptimizer_def)

subsection \<open>The route engine\<close>

lemma mset_construct_from: "mset (construct_from inp cur remaining) = mset remaining"
proof (induction inp cur remaining rule: construct_from.induct)
  case (1 inp cur)
  show ?case by simp
next
  case (2 inp cur u us)
  define nxt where "nxt = nearest inp cur u us"
  have mem: "nxt \<in> set (u # us)"
    unfolding nxt_def by (rule nearest_in_set)
  have "mset (construct_from inp nxt (remove1 nxt (u # us))) = mset (remove1 nxt (u # us))"
    using 2 [OF nxt_def] .
  then have "mset (construct_from inp cur (u # us)) = add_mset nxt (mset (remove1 nxt (u # us)))"
    by (simp add: nxt_def Let_def)
  also have "\<dots> = mset (u # us)"
    using mem by (simp only: mset_remove1) (simp only: insert_DiffM set_mset_mset)
  finally show ?case .
qed

lemma mset_construct:
  assumes "1 \<le> node_count inp"
  shows "mset (construct inp) = mset [0 ..< node_count inp]"
proof -
  have "[0 ..< node_count inp] = 0 # [1 ..< node_count inp]"
    using assms by (simp add: upt_conv_Cons)
  then show ?thesis
    by (simp add: construct_def mset_construct_from)
qed

lemma hd_construct: "hd (construct inp) = 0"
  by (simp add: construct_def)

lemma mset_two_opt_move: "mset (two_opt_move i j t) = mset t"
proof -
  have "mset (two_opt_move i j t)
      = mset (take i t) + (mset (take (Suc j - i) (drop i t)) + mset (drop (Suc j - i) (drop i t)))"
    by (simp add: two_opt_move_def Let_def)
  also have "\<dots> = mset (take i t) + mset (drop i t)"
    by (simp only: union_code append_take_drop_id)
  also have "\<dots> = mset t"
    by (simp only: union_code append_take_drop_id)
  finally show ?thesis .
qed

lemma hd_two_opt_move:
  assumes "1 \<le> i" and "t \<noteq> []"
  shows "hd (two_opt_move i j t) = hd t"
proof -
  have "take i t \<noteq> []" using assms by (cases t; cases i) simp_all
  then have "hd (two_opt_move i j t) = hd (take i t)"
    by (simp add: two_opt_move_def Let_def)
  also have "\<dots> = hd t" using assms by (cases t; cases i) simp_all
  finally show ?thesis .
qed

lemma fold_choice_in_set:
  "fold (\<lambda>c best. if P c best then c else best) cs start \<in> set (start # cs)"
proof (induction cs arbitrary: start)
  case Nil
  show ?case by simp
next
  case (Cons c cs)
  show ?case
    using Cons [of "if P c start then c else start"] by (auto split: if_splits)
qed

lemma improve_pass_cases:
  "improve_pass inp t = t \<or> (\<exists>i j. 1 \<le> i \<and> improve_pass inp t = two_opt_move i j t)"
proof -
  have "improve_pass inp t \<in> set (t # two_opt_moves t)"
    unfolding improve_pass_def by (rule fold_choice_in_set)
  then show ?thesis
    by (auto simp: two_opt_moves_def)
qed

lemma mset_improve_pass: "mset (improve_pass inp t) = mset t"
  using improve_pass_cases [of inp t] by (auto simp: mset_two_opt_move)

lemma hd_improve_pass: "t \<noteq> [] \<Longrightarrow> hd (improve_pass inp t) = hd t"
  using improve_pass_cases [of inp t] by (auto simp: hd_two_opt_move)

lemma visits_all_nonempty: "1 \<le> n \<Longrightarrow> visits_all n t \<Longrightarrow> t \<noteq> []"
  by (auto simp: visits_all_def upt_conv_Cons)

lemma solver_step_invariant:
  assumes "1 \<le> node_count inp" and "solver_invariant inp st"
  shows "solver_invariant inp (solver_step inp st)"
proof (cases "phase st")
  case INIT
  then show ?thesis by (simp add: solver_invariant_def)
next
  case CONSTRUCT
  then show ?thesis
    using assms(1) by (simp add: solver_invariant_def visits_all_def mset_construct hd_construct)
next
  case IMPROVE
  with assms(2) have v: "visits_all (node_count inp) (tour st)"
    by (simp add: solver_invariant_def)
  then have ne: "tour st \<noteq> []" using assms(1) visits_all_nonempty by blast
  have "visits_all (node_count inp) (improve_pass inp (tour st))"
    using v ne by (simp add: visits_all_def mset_improve_pass hd_improve_pass)
  with v IMPROVE show ?thesis
    by (simp add: solver_invariant_def Let_def)
next
  case DONE
  with assms(2) show ?thesis by simp
next
  case TIMEOUT
  with assms(2) show ?thesis by simp
qed

lemma run_solver_invariant:
  "1 \<le> node_count inp \<Longrightarrow> solver_invariant inp st \<Longrightarrow>
    solver_invariant inp (run_solver inp st)
    \<and> (phase (run_solver inp st) = DONE \<or> phase (run_solver inp st) = TIMEOUT)"
proof (induction inp st rule: run_solver.induct)
  case (1 inp st)
  show ?case
  proof (cases "phase st = DONE \<or> phase st = TIMEOUT")
    case True
    then have "run_solver inp st = st" by (subst run_solver.simps) simp
    with True 1(3) show ?thesis by simp
  next
    case False
    have "solver_invariant inp (solver_step inp st)"
      using 1(2,3) by (rule solver_step_invariant)
    then have "solver_invariant inp (run_solver inp (solver_step inp st))
      \<and> (phase (run_solver inp (solver_step inp st)) = DONE
          \<or> phase (run_solver inp (solver_step inp st)) = TIMEOUT)"
      using 1(1) [OF False 1(2)] by blast
    moreover have "run_solver inp st = run_solver inp (solver_step inp st)"
      using False by (subst run_solver.simps) simp
    ultimately show ?thesis by simp
  qed
qed

lemma solve_visits_all:
  assumes "1 \<le> node_count inp"
  shows "visits_all (node_count inp) (tour (solve inp))"
proof -
  have "solver_invariant inp \<lparr>phase = INIT, tour = [], budget_left = iteration_budget inp\<rparr>"
    by (simp add: solver_invariant_def)
  from run_solver_invariant [OF assms this]
  show ?thesis
    unfolding solve_def solver_invariant_def by auto
qed

lemma resolve_all_valid:
  "list_all (\<lambda>a. geocode env a \<noteq> None) as \<Longrightarrow>
   resolve_all env as = Inr (map (\<lambda>a. the (geocode env a)) as)"
  by (induction as) auto

lemma length_segments_assemble:
  "length (segments (assemble_route env req coords inp t)) = length t - 1"
  by (simp add: assemble_route_def Let_def)

lemma ordered_stops_assemble:
  "ordered_stops (assemble_route env req coords inp t) = map (\<lambda>n. request_addresses req ! n) t"
  by (simp add: assemble_route_def Let_def)

text \<open>
  C2.  For every valid optimize request the engine returns a primary route whose ordered
  stops are the request's addresses in a visiting order that holds the depot (node 0)
  and every submitted stop (nodes 1 to the number of stops) exactly once, with the
  depot first; the route has one segment per submitted stop, that is, one per edge of
  the path through the depot and the stops.
\<close>

theorem optimize_primary_visits_every_stop_once:
  assumes "valid_request env req"
  shows "\<exists>r suboptimal t.
      optimize_primary env req = Inr (r, suboptimal)
      \<and> ordered_stops r = map (\<lambda>n. request_addresses req ! n) t
      \<and> distinct t \<and> set t = {0 .. length (stops req)}
      \<and> mset (ordered_stops r) = mset (start_location req # map address (stops req))
      \<and> hd (ordered_stops r) = start_location req
      \<and> length (ordered_stops r) = length (stops req) + 1
      \<and> length (segments r) = length (stops req)"
proof -
  define addrs where "addrs = request_addresses req"
  define coords where "coords = map (\<lambda>a. the (geocode env a)) addrs"
  define inp where "inp = solver_input env req coords"
  define t where "t = tour (solve inp)"
  define n where "n = length (stops req)"
  have len: "length addrs = Suc n"
    by (simp add: addrs_def request_addresses_def n_def)
  have eff: "\<not> fuel_efficiency_mpg (vehicle req) \<le> 0"
    and geo: "list_all (\<lambda>a. geocode env a \<noteq> None) addrs"
    and two: "\<not> length (remdups coords) < 2"
    using assms by (simp_all add: valid_request_def addrs_def coords_def)
  have res: "resolve_all env (request_addresses req) = Inr coords"
    using resolve_all_valid [OF geo] by (simp add: coords_def addrs_def)
  have opt: "optimize_primary env req
      = Inr (assemble_route env req coords inp t,
             phase (solve inp) = TIMEOUT \<or> t = construct inp)"
    using eff two by (simp add: optimize_primary_def res Let_def inp_def t_def)
  have nc: "node_count inp = Suc n"
    by (simp add: inp_def solver_input_def coords_def len)
  then have "visits_all (Suc n) t"
    using solve_visits_all [of inp] by (simp add: t_def)
  then have mt: "mset t = mset [0 ..< Suc n]" and hd0: "hd t = 0"
    by (simp_all add: visits_all_def)
  from mt have dist: "distinct t"
    by (metis distinct_upt mset_eq_imp_distinct_iff)
  from mt have st: "set t = {0 .. n}"
    by (metis atLeastLessThanSuc_atLeastAtMost mset_eq_setD set_upt)
  from mt have lt: "length t = Suc n"
    by (metis length_upt diff_zero size_mset)
  then have ne: "t \<noteq> []" by auto
  define r where "r = assemble_route env req coords inp t"
  have os: "ordered_stops r = map (\<lambda>k. addrs ! k) t"
    by (simp add: r_def ordered_stops_assemble addrs_def)
  have "mset (ordered_stops r) = image_mset (\<lambda>k. addrs ! k) (mset t)"
    by (simp add: os)
  also have "\<dots> = mset (map (\<lambda>k. addrs ! k) [0 ..< length addrs])"
    by (simp add: mt len)
  also have "\<dots> = mset addrs"
    by (simp only: map_nth)
  finally have ms: "mset (ordered_stops r) = mset (start_location req # map address (stops req))"
    by (simp add: addrs_def request_addresses_def)
  have "hd (ordered_stops r) = addrs ! 0"
    using ne hd0 by (simp add: os hd_map)
  then have h: "hd (ordered_stops r) = start_location req"
    by (simp add: addrs_def request_addresses_def)
  have ls: "length (segments r) = n"
    by (simp add: r_def length_segments_assemble lt)
  have lo: "length (ordered_stops r) = n + 1"
    by (simp add: os lt)
  show ?thesis
    using opt os dist st ms h lo ls
    unfolding r_def [symmetric] addrs_def n_def by blast
qed

theorem optimize_primary_visits_every_stop_once_witness:
  "valid_request sample_env sample_request
   \<and> map_sum id (\<lambda>(r, s). (ordered_stops r, length (segments r), total_distance_km r, s))
         (optimize_primary sample_env sample_request)
       = Inr ([''Depot'', ''Mill'', ''Market'', ''Harbour''], 3, 9, False)"
proof -
  have valid: "valid_request sample_env sample_request"
    by code_simp
  have run: "map_sum id (\<lambda>(r, s). (ordered_stops r, length (segments r), total_distance_km r, s))
         (optimize_primary sample_env sample_request)
       = Inr ([''Depot'', ''Mill'', ''Market'', ''Harbour''], 3, 9, False)"
    by code_simp
  show ?thesis
    using optimize_primary_visits_every_stop_once [OF valid] valid run by simp
qed

end
